theory Spec2Isabelle
  imports Complex_Main
begin

section \<open>Wagon load balancing: the notebook's data, model construction and report\<close>

subsection \<open>Input data\<close>

text \<open>
  The notebook reads two sheets with the first column as index:
  \<^verbatim>\<open>boxes\<close> (index Box, column Weight) and \<^verbatim>\<open>wagons\<close> (index Wagon, column
  Capacity). A frame is kept as its list of rows, label first.
\<close>

type_synonym box = int
type_synonym wagon = int

record problem =
  boxes :: "(box \<times> real) list"
  wagons :: "(wagon \<times> real) list"

datatype error = ConfigurationError | DecodeError | KeyError | ValueError

text \<open>\<^verbatim>\<open>B = boxes.index\<close>, \<^verbatim>\<open>N = wagons.index\<close>, \<^verbatim>\<open>wb = boxes["Weight"]\<close>.
  A lookup \<^verbatim>\<open>wb[b]\<close> at a label that is not in the index raises KeyError. With distinct
  labels the lookup returns the scalar of the row, and the loops only look up labels of
  \<^verbatim>\<open>B\<close>. The theorems about the model are stated for distinct labels.\<close>

definition B :: "problem \<Rightarrow> box list" where
  "B inst = map fst (boxes inst)"

definition N :: "problem \<Rightarrow> wagon list" where
  "N inst = map fst (wagons inst)"

definition wb :: "problem \<Rightarrow> box \<Rightarrow> error + real" where
  "wb inst b = (case map_of (boxes inst) b of None \<Rightarrow> Inl KeyError | Some w \<Rightarrow> Inr w)"

subsection \<open>Expressions handed to the modelling library\<close>

datatype var = Var_x box wagon | Var_W

datatype domain = Binary | NonNegativeReals

datatype sense = minimize | maximize

datatype expr = Const real | V var | Mul real expr | Add expr expr

text \<open>A comparison of two expressions is an expression object, except that Python
  compares two plain numbers at once and yields a Boolean.\<close>

datatype relexpr = PyBool bool | Equality expr expr | Inequality expr expr

text \<open>Python's \<^verbatim>\<open>sum\<close> starts from the number 0 and adds the terms from the left.\<close>

definition py_sum :: "expr list \<Rightarrow> expr" where
  "py_sum ts = foldl Add (Const 0) ts"

fun py_eq :: "expr \<Rightarrow> expr \<Rightarrow> relexpr" where
  "py_eq (Const a) (Const c) = PyBool (a = c)"
| "py_eq e1 e2 = Equality e1 e2"

fun py_le :: "expr \<Rightarrow> expr \<Rightarrow> relexpr" where
  "py_le (Const a) (Const c) = PyBool (a \<le> c)"
| "py_le e1 e2 = Inequality e1 e2"

text \<open>\<^verbatim>\<open>ConstraintList.add(expr=...)\<close> appends a relational expression; the library
  rejects a plain Boolean with ValueError.\<close>

fun add :: "relexpr list \<Rightarrow> relexpr \<Rightarrow> error + relexpr list" where
  "add cs (PyBool _) = Inl ValueError"
| "add cs e = Inr (cs @ [e])"

record model =
  variables :: "(var \<times> domain) list"
  objective :: expr
  objective_sense :: sense
  constraint1 :: "relexpr list"
  constraint2 :: "relexpr list"

subsection \<open>The model construction cell\<close>

text \<open>
  \<^verbatim>\<open>
  model.x = pyo.Var(B, N, domain=pyo.Binary)
  model.W = pyo.Var(domain=pyo.NonNegativeReals)
  model.objective = pyo.Objective(expr=model.W, sense=pyo.minimize)
  model.constraint1 = pyo.ConstraintList()
  for b in B:
      model.constraint1.add(expr=sum(model.x[b,n] for n in N) == 1)
  model.constraint2 = pyo.ConstraintList()
  for n in N:
      model.constraint2.add(expr=sum(wb[b]*model.x[b,n] for b in B) <= model.W)
  \<close>
\<close>

fun constraint1_loop :: "problem \<Rightarrow> box list \<Rightarrow> relexpr list \<Rightarrow> error + relexpr list" where
  "constraint1_loop inst [] cs = Inr cs"
| "constraint1_loop inst (b # bs) cs =
     (case add cs (py_eq (py_sum (map (\<lambda>n. V (Var_x b n)) (N inst))) (Const 1)) of
        Inl e \<Rightarrow> Inl e
      | Inr cs' \<Rightarrow> constraint1_loop inst bs cs')"

text \<open>The generator \<^verbatim>\<open>wb[b]*model.x[b,n] for b in B\<close>.\<close>

fun weighted_terms :: "problem \<Rightarrow> wagon \<Rightarrow> box list \<Rightarrow> error + expr list" where
  "weighted_terms inst n [] = Inr []"
| "weighted_terms inst n (b # bs) =
     (case wb inst b of
        Inl e \<Rightarrow> Inl e
      | Inr w \<Rightarrow>
          (case weighted_terms inst n bs of
             Inl e \<Rightarrow> Inl e
           | Inr ts \<Rightarrow> Inr (Mul w (V (Var_x b n)) # ts)))"

fun constraint2_loop :: "problem \<Rightarrow> wagon list \<Rightarrow> relexpr list \<Rightarrow> error + relexpr list" where
  "constraint2_loop inst [] cs = Inr cs"
| "constraint2_loop inst (n # ns) cs =
     (case weighted_terms inst n (B inst) of
        Inl e \<Rightarrow> Inl e
      | Inr ts \<Rightarrow>
          (case add cs (py_le (py_sum ts) (V Var_W)) of
             Inl e \<Rightarrow> Inl e
           | Inr cs' \<Rightarrow> constraint2_loop inst ns cs'))"

definition build_model :: "problem \<Rightarrow> error + model" where
  "build_model inst =
     (case constraint1_loop inst (B inst) [] of
        Inl e \<Rightarrow> Inl e
      | Inr c1 \<Rightarrow>
          (case constraint2_loop inst (N inst) [] of
             Inl e \<Rightarrow> Inl e
           | Inr c2 \<Rightarrow>
               Inr \<lparr>variables =
                      concat (map (\<lambda>b. map (\<lambda>n. (Var_x b n, Binary)) (N inst)) (B inst))
                        @ [(Var_W, NonNegativeReals)],
                    objective = V Var_W,
                    objective_sense = minimize,
                    constraint1 = c1,
                    constraint2 = c2\<rparr>))"

subsection \<open>What a model means: valuations, feasibility, optimality\<close>

text \<open>
  The notebook states the program that the model stands for: minimise W subject to
  \<open>\<Sum>n. x b n = 1\<close> for every box, \<open>\<Sum>b. x b n * w b \<le> W\<close> for every wagon, x binary
  and W not negative. A valuation gives every variable a number; it is feasible for a
  model when every declared variable lies in its domain and every row holds.
\<close>

type_synonym valuation = "var \<Rightarrow> real"

fun eval :: "valuation \<Rightarrow> expr \<Rightarrow> real" where
  "eval v (Const c) = c"
| "eval v (V y) = v y"
| "eval v (Mul c e) = c * eval v e"
| "eval v (Add e1 e2) = eval v e1 + eval v e2"

fun holds :: "valuation \<Rightarrow> relexpr \<Rightarrow> bool" where
  "holds v (PyBool p) = p"
| "holds v (Equality e1 e2) = (eval v e1 = eval v e2)"
| "holds v (Inequality e1 e2) = (eval v e1 \<le> eval v e2)"

fun in_domain :: "domain \<Rightarrow> real \<Rightarrow> bool" where
  "in_domain Binary q = (q = 0 \<or> q = 1)"
| "in_domain NonNegativeReals q = (0 \<le> q)"

definition feasible :: "model \<Rightarrow> valuation \<Rightarrow> bool" where
  "feasible m v =
     (list_all (\<lambda>(y, d). in_domain d (v y)) (variables m)
      \<and> list_all (holds v) (constraint1 m)
      \<and> list_all (holds v) (constraint2 m))"

definition objective_value :: "model \<Rightarrow> valuation \<Rightarrow> real" where
  "objective_value m v = eval v (objective m)"

fun better_or_equal :: "sense \<Rightarrow> real \<Rightarrow> real \<Rightarrow> bool" where
  "better_or_equal minimize p q = (p \<le> q)"
| "better_or_equal maximize p q = (q \<le> p)"

text \<open>The solver is external. Its contract, when it reports the termination condition
  optimal, is that the values it loads into the model form an optimal valuation.\<close>

definition is_optimal :: "model \<Rightarrow> valuation \<Rightarrow> bool" where
  "is_optimal m v =
     (feasible m v
      \<and> (\<forall>v'. feasible m v' \<longrightarrow>
            better_or_equal (objective_sense m) (objective_value m v) (objective_value m v')))"

subsection \<open>The state after the solver call, and the two report cells\<close>

datatype TerminationCondition = tc_optimal | tc_infeasible | tc_unbounded | tc_error | tc_maxTimeLimit

text \<open>After \<^verbatim>\<open>solver.solve(model)\<close> every variable of the model holds a number or
  nothing; \<^verbatim>\<open>pyo.value\<close> of a variable that holds nothing raises ValueError.\<close>

record solved =
  termination_condition :: TerminationCondition
  var_value :: "var \<Rightarrow> real option"

definition pyo_value :: "solved \<Rightarrow> var \<Rightarrow> error + real" where
  "pyo_value r y = (case var_value r y of None \<Rightarrow> Inl ValueError | Some q \<Rightarrow> Inr q)"

text \<open>
  \<^verbatim>\<open>
  for n in N:
      for b in B:
          if pyo.value(model.x[b,n]) != 0:
              print(f"Box: {b} is assigend to wagon: {n}")
  \<close>
  The printed lines are kept as the list of (box, wagon) pairs, in printing order. A
  raise ends the cell; the lines printed before it are not kept.
\<close>

fun decode_boxes :: "solved \<Rightarrow> wagon \<Rightarrow> box list \<Rightarrow> (box \<times> wagon) list
    \<Rightarrow> error + (box \<times> wagon) list" where
  "decode_boxes r n [] out = Inr out"
| "decode_boxes r n (b # bs) out =
     (case pyo_value r (Var_x b n) of
        Inl e \<Rightarrow> Inl e
      | Inr q \<Rightarrow> decode_boxes r n bs (if q \<noteq> 0 then out @ [(b, n)] else out))"

fun decode_wagons :: "solved \<Rightarrow> box list \<Rightarrow> wagon list \<Rightarrow> (box \<times> wagon) list
    \<Rightarrow> error + (box \<times> wagon) list" where
  "decode_wagons r bs [] out = Inr out"
| "decode_wagons r bs (n # ns) out =
     (case decode_boxes r n bs out of
        Inl e \<Rightarrow> Inl e
      | Inr out' \<Rightarrow> decode_wagons r bs ns out')"

definition decode :: "problem \<Rightarrow> solved \<Rightarrow> error + (box \<times> wagon) list" where
  "decode inst r = decode_wagons r (B inst) (N inst) []"

text \<open>\<^verbatim>\<open>pyo.value(model.objective)\<close>: the objective expression is the variable W.\<close>

definition report_objective :: "solved \<Rightarrow> error + real" where
  "report_objective r = pyo_value r Var_W"

subsection \<open>Notions used to state the properties\<close>

text \<open>The weight of a box, as a number.\<close>

definition weight :: "problem \<Rightarrow> box \<Rightarrow> real" where
  "weight inst b = (case wb inst b of Inr w \<Rightarrow> w | Inl _ \<Rightarrow> 0)"

text \<open>The load of a wagon in a printed assignment: the weights of the boxes printed
  with that wagon, added up.\<close>

definition load :: "problem \<Rightarrow> (box \<times> wagon) list \<Rightarrow> wagon \<Rightarrow> real" where
  "load inst ls n = sum_list (map (\<lambda>(b, n'). weight inst b) (filter (\<lambda>(b, n'). n' = n) ls))"

text \<open>The state in which the solver has loaded the valuation \<open>v\<close> into the model.\<close>

definition loaded :: "TerminationCondition \<Rightarrow> valuation \<Rightarrow> solved" where
  "loaded t v = \<lparr>termination_condition = t, var_value = (\<lambda>y. Some (v y))\<rparr>"

text \<open>The row that the first loop adds for box \<open>b\<close>, and the row that the second loop adds
  for wagon \<open>n\<close>, once the weight lookups have succeeded.\<close>

definition assign_row :: "problem \<Rightarrow> box \<Rightarrow> relexpr" where
  "assign_row inst b = Equality (py_sum (map (\<lambda>n. V (Var_x b n)) (N inst))) (Const 1)"

definition bound_row :: "problem \<Rightarrow> wagon \<Rightarrow> relexpr" where
  "bound_row inst n =
     Inequality (py_sum (map (\<lambda>b. Mul (weight inst b) (V (Var_x b n))) (B inst))) (V Var_W)"

text \<open>The index set of \<^verbatim>\<open>model.x\<close>, in the order of the product of B and N.\<close>

definition x_vars :: "problem \<Rightarrow> (var \<times> domain) list" where
  "x_vars inst = concat (map (\<lambda>b. map (\<lambda>n. (Var_x b n, Binary)) (N inst)) (B inst))"

text \<open>The left-hand side of the row of wagon \<open>n\<close> under a valuation.\<close>

definition wagon_load :: "problem \<Rightarrow> valuation \<Rightarrow> wagon \<Rightarrow> real" where
  "wagon_load inst v n = (\<Sum>b\<leftarrow>B inst. weight inst b * v (Var_x b n))"

text \<open>The indicator of box \<open>b\<close> in wagon \<open>n\<close> holds a number other than 0; and the lines
  that the inner loop prints for wagon \<open>n\<close> when every indicator holds a number.\<close>

definition indicator_nonzero :: "solved \<Rightarrow> box \<Rightarrow> wagon \<Rightarrow> bool" where
  "indicator_nonzero r b n = (case var_value r (Var_x b n) of None \<Rightarrow> False | Some q \<Rightarrow> q \<noteq> 0)"

definition printed :: "solved \<Rightarrow> box list \<Rightarrow> wagon \<Rightarrow> (box \<times> wagon) list" where
  "printed r bs n = map (\<lambda>b. (b, n)) (filter (\<lambda>b. indicator_nonzero r b n) bs)"

text \<open>The data of the notebook: sixteen boxes, three wagons of capacity 100.\<close>

definition notebook_instance :: problem where
  "notebook_instance =
     \<lparr>boxes = [(1, 34), (2, 6), (3, 8), (4, 17), (5, 16), (6, 5), (7, 13), (8, 21),
                (9, 25), (10, 31), (11, 14), (12, 13), (13, 33), (14, 9), (15, 25), (16, 25)],
      wagons = [(1, 100), (2, 100), (3, 100)]\<rparr>"

text \<open>The lines that the notebook's decoding cell printed.\<close>

definition notebook_assignment :: "(box \<times> wagon) list" where
  "notebook_assignment =
     [(1, 1), (2, 1), (13, 1), (15, 1),
      (5, 2), (6, 2), (7, 2), (9, 2), (10, 2), (14, 2),
      (3, 3), (4, 3), (8, 3), (11, 3), (12, 3), (16, 3)]"

text \<open>The valuation that puts exactly the listed pairs to 1 and gives W the value \<open>q\<close>.\<close>

definition valuation_of :: "(box \<times> wagon) list \<Rightarrow> real \<Rightarrow> valuation" where
  "valuation_of ls q y = (case y of Var_x b n \<Rightarrow> (if (b, n) \<in> set ls then 1 else 0) | Var_W \<Rightarrow> q)"

text \<open>The model of the notebook's data, written with the rows above.\<close>

definition notebook_model :: model where
  "notebook_model =
     \<lparr>variables = x_vars notebook_instance @ [(Var_W, NonNegativeReals)],
      objective = V Var_W, objective_sense = minimize,
      constraint1 = map (assign_row notebook_instance) (B notebook_instance),
      constraint2 = map (bound_row notebook_instance) (N notebook_instance)\<rparr>"

text \<open>The same data with the weight of one box replaced.\<close>

definition set_weight :: "problem \<Rightarrow> box \<Rightarrow> real \<Rightarrow> problem" where
  "set_weight inst b0 w' =
     inst\<lparr>boxes := map (\<lambda>(b, w). if b = b0 then (b, w') else (b, w)) (boxes inst)\<rparr>"

text \<open>The notebook's data with box 6 weighing 8 instead of 5, and an assignment for it.\<close>

definition heavier_instance :: problem where
  "heavier_instance = set_weight notebook_instance 6 8"

definition heavier_assignment :: "(box \<times> wagon) list" where
  "heavier_assignment =
     [(1, 1), (10, 1), (13, 1),
      (3, 2), (4, 2), (9, 2), (15, 2), (16, 2),
      (2, 3), (5, 3), (6, 3), (7, 3), (8, 3), (11, 3), (12, 3), (14, 3)]"

definition heavier_model :: model where
  "heavier_model =
     \<lparr>variables = x_vars heavier_instance @ [(Var_W, NonNegativeReals)],
      objective = V Var_W, objective_sense = minimize,
      constraint1 = map (assign_row heavier_instance) (B heavier_instance),
      constraint2 = map (bound_row heavier_instance) (N heavier_instance)\<rparr>"

text \<open>A state in which box 1 has two indicators that are not zero and box 2 has none.\<close>

definition inconsistent_state :: solved where
  "inconsistent_state = loaded tc_optimal (valuation_of [(1, 1), (1, 2)] 8)"

text \<open>A state in which box 1 is in wagon 2 only, box 2 is in both wagons and box 3 in none.\<close>

definition crossed_state :: solved where
  "crossed_state = loaded tc_optimal (valuation_of [(1, 2), (2, 1), (2, 2)] 8)"

section \<open>The construction loops in closed form\<close>

lemma eval_foldl_Add: "eval v (foldl Add e ts) = eval v e + sum_list (map (eval v) ts)"
  by (induction ts arbitrary: e) simp_all

lemma eval_py_sum: "eval v (py_sum ts) = sum_list (map (eval v) ts)"
  by (simp add: py_sum_def eval_foldl_Add)

lemma foldl_Add_is_Add: "ts \<noteq> [] \<Longrightarrow> \<exists>a c. foldl Add e ts = Add a c"
proof (induction ts arbitrary: e)
  case Nil
  then show ?case by simp
next
  case (Cons t ts)
  show ?case
  proof (cases ts)
    case Nil
    then show ?thesis by simp
  next
    case (Cons u us)
    then have "ts \<noteq> []" by simp
    from Cons.IH [OF this, of "Add e t"] show ?thesis by simp
  qed
qed

lemma py_eq_py_sum:
  "py_eq (py_sum ts) (Const c) = (if ts = [] then PyBool (0 = c) else Equality (py_sum ts) (Const c))"
proof (cases "ts = []")
  case True
  then show ?thesis by (simp add: py_sum_def)
next
  case False
  then obtain a d where "py_sum ts = Add a d"
    using foldl_Add_is_Add [of ts "Const 0"] by (auto simp: py_sum_def)
  with False show ?thesis by simp
qed

lemma py_le_var: "py_le e (V y) = Inequality e (V y)"
  by (cases e) simp_all

lemma constraint1_loop_nonempty:
  "N inst \<noteq> [] \<Longrightarrow> constraint1_loop inst bs cs = Inr (cs @ map (assign_row inst) bs)"
  by (induction bs arbitrary: cs) (simp_all add: py_eq_py_sum assign_row_def)

lemma constraint1_loop_empty:
  "N inst = [] \<Longrightarrow> constraint1_loop inst bs cs = (if bs = [] then Inr cs else Inl ValueError)"
  by (cases bs) (simp_all add: py_eq_py_sum)

lemma wb_in_index: "b \<in> set (B inst) \<Longrightarrow> wb inst b = Inr (weight inst b)"
proof -
  assume "b \<in> set (B inst)"
  then have "map_of (boxes inst) b \<noteq> None"
    by (simp add: B_def map_of_eq_None_iff)
  then show ?thesis by (auto simp: wb_def weight_def)
qed

lemma weighted_terms_eq:
  "set bs \<subseteq> set (B inst) \<Longrightarrow>
   weighted_terms inst n bs = Inr (map (\<lambda>b. Mul (weight inst b) (V (Var_x b n))) bs)"
  by (induction bs) (simp_all add: wb_in_index)

lemma constraint2_loop_eq:
  "constraint2_loop inst ns cs = Inr (cs @ map (bound_row inst) ns)"
  by (induction ns arbitrary: cs) (simp_all add: weighted_terms_eq py_le_var bound_row_def)

lemma build_model_eq:
  "build_model inst =
     (if N inst = [] \<and> B inst \<noteq> [] then Inl ValueError
      else Inr \<lparr>variables = x_vars inst @ [(Var_W, NonNegativeReals)],
                objective = V Var_W, objective_sense = minimize,
                constraint1 = map (assign_row inst) (B inst),
                constraint2 = map (bound_row inst) (N inst)\<rparr>)"
proof (cases "N inst = []")
  case True
  then show ?thesis
    by (simp add: build_model_def constraint1_loop_empty constraint2_loop_eq x_vars_def)
next
  case False
  then show ?thesis
    by (simp add: build_model_def constraint1_loop_nonempty constraint2_loop_eq x_vars_def)
qed

lemma build_model_fields:
  assumes "build_model inst = Inr m"
  shows "objective m = V Var_W" and "objective_sense m = minimize"
  using assms by (auto simp: build_model_eq split: if_splits)

lemma x_names_distinct:
  "distinct bs \<Longrightarrow> distinct ns \<Longrightarrow> distinct (concat (map (\<lambda>b. map (Var_x b) ns) bs))"
  by (induction bs) (auto simp: distinct_map inj_on_def)

lemma x_vars_distinct:
  assumes "distinct (B inst)" and "distinct (N inst)"
  shows "distinct (map fst (x_vars inst))"
proof -
  have "map fst (x_vars inst) = concat (map (\<lambda>b. map (Var_x b) (N inst)) (B inst))"
    by (simp add: x_vars_def map_concat comp_def)
  with x_names_distinct [OF assms] show ?thesis by simp
qed

section \<open>Feasible and optimal valuations of a built model\<close>

lemma feasible_build:
  assumes "build_model inst = Inr m"
  shows "feasible m v \<longleftrightarrow>
    (\<forall>b\<in>set (B inst). \<forall>n\<in>set (N inst). v (Var_x b n) = 0 \<or> v (Var_x b n) = 1)
    \<and> 0 \<le> v Var_W
    \<and> (\<forall>b\<in>set (B inst). (\<Sum>n\<leftarrow>N inst. v (Var_x b n)) = 1)
    \<and> (\<forall>n\<in>set (N inst). (\<Sum>b\<leftarrow>B inst. weight inst b * v (Var_x b n)) \<le> v Var_W)"
proof -
  from assms have m: "m = \<lparr>variables = x_vars inst @ [(Var_W, NonNegativeReals)],
                objective = V Var_W, objective_sense = minimize,
                constraint1 = map (assign_row inst) (B inst),
                constraint2 = map (bound_row inst) (N inst)\<rparr>"
    by (simp add: build_model_eq split: if_splits)
  have 1: "list_all (\<lambda>(y, d). in_domain d (v y)) (x_vars inst) \<longleftrightarrow>
    (\<forall>b\<in>set (B inst). \<forall>n\<in>set (N inst). v (Var_x b n) = 0 \<or> v (Var_x b n) = 1)"
    by (auto simp: x_vars_def list_all_iff)
  have 2: "list_all (holds v) (map (assign_row inst) (B inst)) \<longleftrightarrow>
    (\<forall>b\<in>set (B inst). (\<Sum>n\<leftarrow>N inst. v (Var_x b n)) = 1)"
    by (simp add: list_all_iff assign_row_def eval_py_sum comp_def)
  have 3: "list_all (holds v) (map (bound_row inst) (N inst)) \<longleftrightarrow>
    (\<forall>n\<in>set (N inst). (\<Sum>b\<leftarrow>B inst. weight inst b * v (Var_x b n)) \<le> v Var_W)"
    by (simp add: list_all_iff bound_row_def eval_py_sum comp_def)
  show ?thesis
    unfolding feasible_def m by (simp add: 1 2 3)
qed

lemma is_optimal_build:
  assumes "build_model inst = Inr m"
  shows "is_optimal m v \<longleftrightarrow> feasible m v \<and> (\<forall>v'. feasible m v' \<longrightarrow> v Var_W \<le> v' Var_W)"
  by (simp add: is_optimal_def objective_value_def build_model_fields [OF assms])

lemma objective_value_build: "build_model inst = Inr m \<Longrightarrow> objective_value m v = v Var_W"
  by (simp add: objective_value_def build_model_fields)

lemma feasible_load_le:
  assumes "build_model inst = Inr m" and "feasible m v" and "n \<in> set (N inst)"
  shows "wagon_load inst v n \<le> v Var_W"
  using assms by (simp add: feasible_build wagon_load_def)

lemma feasible_raise_W:
  assumes b: "build_model inst = Inr m" and f: "feasible m v"
    and q0: "0 \<le> q" and ql: "\<forall>n\<in>set (N inst). wagon_load inst v n \<le> q"
  shows "feasible m (v(Var_W := q))"
  using f q0 ql unfolding feasible_build [OF b] wagon_load_def by simp

lemma optimal_W:
  assumes b: "build_model inst = Inr m" and o: "is_optimal m v"
  shows "v Var_W = Max (insert 0 (wagon_load inst v ` set (N inst)))"
proof -
  let ?S = "insert 0 (wagon_load inst v ` set (N inst))"
  have fin: "finite ?S" and ne: "?S \<noteq> {}" by simp_all
  from o b have f: "feasible m v" and least: "\<And>v'. feasible m v' \<Longrightarrow> v Var_W \<le> v' Var_W"
    by (simp_all add: is_optimal_build)
  have "0 \<le> v Var_W" using f by (simp add: feasible_build [OF b])
  then have "\<forall>s\<in>?S. s \<le> v Var_W"
    using feasible_load_le [OF b f] by auto
  then have ge: "Max ?S \<le> v Var_W" using Max_le_iff [OF fin ne, of "v Var_W"] by blast
  have "feasible m (v(Var_W := Max ?S))"
  proof (rule feasible_raise_W [OF b f])
    show "0 \<le> Max ?S" using fin by (simp add: Max_ge)
    show "\<forall>n\<in>set (N inst). wagon_load inst v n \<le> Max ?S"
      using fin by (auto intro: Max_ge)
  qed
  from least [OF this] have le: "v Var_W \<le> Max ?S" by simp
  from le ge show ?thesis by (rule antisym)
qed

lemma wagon_load_nonneg:
  assumes b: "build_model inst = Inr m" and f: "feasible m v"
    and w: "\<forall>b\<in>set (B inst). 0 \<le> weight inst b" and n: "n \<in> set (N inst)"
  shows "0 \<le> wagon_load inst v n"
proof -
  have bin: "\<forall>b\<in>set (B inst). v (Var_x b n) = 0 \<or> v (Var_x b n) = 1"
    using f n by (simp add: feasible_build [OF b])
  have "\<forall>b\<in>set (B inst). 0 \<le> weight inst b * v (Var_x b n)"
  proof
    fix b assume "b \<in> set (B inst)"
    with bin w have "0 \<le> weight inst b" and "0 \<le> v (Var_x b n)" by auto
    then show "0 \<le> weight inst b * v (Var_x b n)" by (rule mult_nonneg_nonneg)
  qed
  then show ?thesis unfolding wagon_load_def by (intro sum_list_nonneg) auto
qed

lemma optimal_W_nonneg_weights:
  assumes b: "build_model inst = Inr m" and o: "is_optimal m v"
    and w: "\<forall>b\<in>set (B inst). 0 \<le> weight inst b" and ne: "N inst \<noteq> []"
  shows "v Var_W = Max (wagon_load inst v ` set (N inst))"
proof -
  let ?A = "wagon_load inst v ` set (N inst)"
  from o have f: "feasible m v" by (simp add: is_optimal_def)
  have fin: "finite ?A" and ne': "?A \<noteq> {}" using ne by simp_all
  from ne obtain n where n: "n \<in> set (N inst)" by (cases "N inst") auto
  have "0 \<le> wagon_load inst v n" by (rule wagon_load_nonneg [OF b f w n])
  also have "wagon_load inst v n \<le> Max ?A" using fin n by (intro Max_ge) auto
  finally have "max 0 (Max ?A) = Max ?A" by simp
  then show ?thesis
    unfolding optimal_W [OF b o] by (simp only: Max_insert [OF fin ne'])
qed

lemma sum_list_swap_weighted:
  "(\<Sum>n\<leftarrow>ns. \<Sum>b\<leftarrow>bs. w b * f b n) = (\<Sum>b\<leftarrow>bs. w b * (\<Sum>n\<leftarrow>ns. f b n :: real))"
proof (induction bs)
  case Nil
  then show ?case by simp
next
  case (Cons b bs)
  have "(\<Sum>n\<leftarrow>ns. \<Sum>b'\<leftarrow>b # bs. w b' * f b' n)
        = (\<Sum>n\<leftarrow>ns. w b * f b n) + (\<Sum>n\<leftarrow>ns. \<Sum>b'\<leftarrow>bs. w b' * f b' n)"
    by (simp add: sum_list_addf)
  also have "(\<Sum>n\<leftarrow>ns. w b * f b n) = w b * (\<Sum>n\<leftarrow>ns. f b n)"
    by (simp add: sum_list_const_mult)
  finally show ?case using Cons.IH by simp
qed

lemma feasible_loads_total:
  assumes b: "build_model inst = Inr m" and f: "feasible m v"
  shows "(\<Sum>n\<leftarrow>N inst. wagon_load inst v n) = (\<Sum>b\<leftarrow>B inst. weight inst b)"
proof -
  have one: "\<And>b. b \<in> set (B inst) \<Longrightarrow> (\<Sum>n\<leftarrow>N inst. v (Var_x b n)) = 1"
    using f by (simp add: feasible_build [OF b])
  have "(\<Sum>n\<leftarrow>N inst. wagon_load inst v n)
        = (\<Sum>b\<leftarrow>B inst. weight inst b * (\<Sum>n\<leftarrow>N inst. v (Var_x b n)))"
    unfolding wagon_load_def by (rule sum_list_swap_weighted)
  also have "\<dots> = (\<Sum>b\<leftarrow>B inst. weight inst b)"
    by (rule arg_cong [where f = sum_list], rule map_cong) (simp_all add: one)
  finally show ?thesis .
qed

lemma binary_sum_in_Ints:
  "(\<forall>b\<in>set bs. w b \<in> \<int>) \<Longrightarrow> (\<forall>b\<in>set bs. f b = 0 \<or> f b = (1::real)) \<Longrightarrow>
   (\<Sum>b\<leftarrow>bs. w b * f b) \<in> \<int>"
  by (induction bs) auto

lemma feasible_load_in_Ints:
  assumes b: "build_model inst = Inr m" and f: "feasible m v"
    and w: "\<forall>b\<in>set (B inst). weight inst b \<in> \<int>" and n: "n \<in> set (N inst)"
  shows "wagon_load inst v n \<in> \<int>"
  unfolding wagon_load_def
  using f w n by (intro binary_sum_in_Ints) (simp_all add: feasible_build [OF b])

lemma Ints_less_imp_le_pred:
  assumes "x \<in> \<int>" and "x < real_of_int k"
  shows "x \<le> real_of_int (k - 1)"
proof -
  from assms(1) obtain j where x: "x = real_of_int j" by (rule Ints_cases)
  with assms(2) have "j < k" by simp
  then have "j \<le> k - 1" by simp
  then show ?thesis unfolding x by (simp only: of_int_le_iff)
qed

lemma feasible_W_lower_bound:
  assumes b: "build_model inst = Inr m" and f: "feasible m v"
    and w: "\<forall>b\<in>set (B inst). weight inst b \<in> \<int>"
    and k: "real (length (N inst)) * real_of_int (k - 1) < (\<Sum>b\<leftarrow>B inst. weight inst b)"
  shows "real_of_int k \<le> v Var_W"
proof (rule ccontr)
  assume "\<not> real_of_int k \<le> v Var_W"
  then have lt: "v Var_W < real_of_int k" by simp
  have "\<forall>n\<in>set (N inst). wagon_load inst v n \<le> real_of_int (k - 1)"
  proof
    fix n assume n: "n \<in> set (N inst)"
    have "wagon_load inst v n < real_of_int k"
      using feasible_load_le [OF b f n] lt by simp
    with feasible_load_in_Ints [OF b f w n] show "wagon_load inst v n \<le> real_of_int (k - 1)"
      by (rule Ints_less_imp_le_pred)
  qed
  then have "(\<Sum>n\<leftarrow>N inst. wagon_load inst v n) \<le> (\<Sum>n\<leftarrow>N inst. real_of_int (k - 1))"
    by (intro sum_list_mono) simp
  also have "\<dots> = real (length (N inst)) * real_of_int (k - 1)"
    by (simp add: sum_list_triv)
  finally show False
    using k by (simp add: feasible_loads_total [OF b f])
qed

lemma binary_weighted_sum:
  "\<forall>b\<in>set bs. f b = 0 \<or> f b = (1::real) \<Longrightarrow>
   (\<Sum>b\<leftarrow>filter (\<lambda>b. f b \<noteq> 0) bs. w b) = (\<Sum>b\<leftarrow>bs. w b * f b)"
  by (induction bs) auto

lemma binary_count:
  "\<forall>n\<in>set ns. f n = 0 \<or> f n = (1::real) \<Longrightarrow>
   real (length (filter (\<lambda>n. f n \<noteq> 0) ns)) = (\<Sum>n\<leftarrow>ns. f n)"
  by (induction ns) auto

lemma feasible_one_nonzero:
  assumes b: "build_model inst = Inr m" and f: "feasible m v" and b0: "b0 \<in> set (B inst)"
  shows "\<exists>n\<in>set (N inst). filter (\<lambda>n. v (Var_x b0 n) \<noteq> 0) (N inst) = [n]"
proof -
  let ?ns = "filter (\<lambda>n. v (Var_x b0 n) \<noteq> 0) (N inst)"
  have bin: "\<forall>n\<in>set (N inst). v (Var_x b0 n) = 0 \<or> v (Var_x b0 n) = 1"
    and one: "(\<Sum>n\<leftarrow>N inst. v (Var_x b0 n)) = 1"
    using f b0 by (simp_all add: feasible_build [OF b])
  from binary_count [OF bin] one have "length ?ns = 1" by simp
  then obtain n where ns: "?ns = [n]"
    by (cases ?ns) simp_all
  then have "n \<in> set ?ns" by simp
  then have "n \<in> set (N inst)" by simp
  with ns show ?thesis by blast
qed

section \<open>The report cells in closed form\<close>

lemma decode_boxes_error:
  "decode_boxes r n bs out = Inl e \<Longrightarrow> e = ValueError"
  by (induction bs arbitrary: out) (auto simp: pyo_value_def split: option.splits if_splits)

lemma decode_wagons_error:
  "decode_wagons r bs ns out = Inl e \<Longrightarrow> e = ValueError"
  by (induction ns arbitrary: out) (auto split: sum.splits dest: decode_boxes_error)

lemma decode_boxes_loaded:
  "\<forall>b\<in>set bs. var_value r (Var_x b n) \<noteq> None \<Longrightarrow>
   decode_boxes r n bs out = Inr (out @ printed r bs n)"
  by (induction bs arbitrary: out)
     (auto simp: pyo_value_def printed_def indicator_nonzero_def)

lemma decode_wagons_loaded:
  "\<forall>n\<in>set ns. \<forall>b\<in>set bs. var_value r (Var_x b n) \<noteq> None \<Longrightarrow>
   decode_wagons r bs ns out = Inr (out @ concat (map (printed r bs) ns))"
  by (induction ns arbitrary: out) (simp_all add: decode_boxes_loaded)

lemma decode_loaded:
  "\<forall>n\<in>set (N inst). \<forall>b\<in>set (B inst). var_value r (Var_x b n) \<noteq> None \<Longrightarrow>
   decode inst r = Inr (concat (map (printed r (B inst)) (N inst)))"
  by (simp add: decode_def decode_wagons_loaded)

lemma filter_eq_distinct:
  "distinct bs \<Longrightarrow> b0 \<in> set bs \<Longrightarrow>
   filter (\<lambda>b. Q b \<and> b = b0) bs = (if Q b0 then [b0] else [])"
proof (induction bs)
  case Nil
  then show ?case by simp
next
  case (Cons b bs)
  show ?case
  proof (cases "b = b0")
    case True
    with Cons.prems have "b0 \<notin> set bs" by simp
    then have "filter (\<lambda>b. Q b \<and> b = b0) bs = []"
      by (auto simp: filter_empty_conv)
    with True show ?thesis by simp
  next
    case False
    with Cons show ?thesis by simp
  qed
qed

lemma printed_of_box:
  assumes "distinct bs" and "b0 \<in> set bs"
  shows "filter (\<lambda>l. fst l = b0) (printed r bs n) = (if indicator_nonzero r b0 n then [(b0, n)] else [])"
  by (simp add: printed_def filter_map comp_def filter_eq_distinct [OF assms])

lemma lines_of_box:
  assumes "distinct bs" and "b0 \<in> set bs"
  shows "filter (\<lambda>l. fst l = b0) (concat (map (printed r bs) ns))
         = map (Pair b0) (filter (indicator_nonzero r b0) ns)"
  by (induction ns) (simp_all add: printed_of_box [OF assms])

lemma lines_of_wagon:
  "distinct ns \<Longrightarrow> n0 \<in> set ns \<Longrightarrow>
   filter (\<lambda>(b, n'). n' = n0) (concat (map (printed r bs) ns)) = printed r bs n0"
proof (induction ns)
  case Nil
  then show ?case by simp
next
  case (Cons n ns)
  have same: "filter (\<lambda>(b, n'). n' = n) (printed r bs n) = printed r bs n" for n
    by (simp add: printed_def filter_map comp_def)
  have other: "filter (\<lambda>(b, n'). n' = n0) (printed r bs n) = []" if "n \<noteq> n0" for n
    using that by (simp add: printed_def filter_map comp_def)
  have none: "filter (\<lambda>(b, n'). n' = n0) (concat (map (printed r bs) ns)) = []" if "n0 \<notin> set ns"
    using that by (induction ns) (simp_all add: other)
  show ?case
  proof (cases "n = n0")
    case True
    with Cons.prems have "n0 \<notin> set ns" by simp
    with True show ?thesis by (simp add: same none)
  next
    case False
    with Cons show ?thesis by (simp add: other)
  qed
qed

lemma indicator_nonzero_loaded: "indicator_nonzero (loaded t v) b n \<longleftrightarrow> v (Var_x b n) \<noteq> 0"
  by (simp add: indicator_nonzero_def loaded_def)

lemma decode_loaded_valuation:
  "decode inst (loaded t v) = Inr (concat (map (printed (loaded t v) (B inst)) (N inst)))"
  by (rule decode_loaded) (simp add: loaded_def)

lemma load_printed:
  assumes b: "build_model inst = Inr m" and f: "feasible m v"
    and d: "distinct (N inst)" and n: "n \<in> set (N inst)"
  shows "load inst (concat (map (printed (loaded t v) (B inst)) (N inst))) n = wagon_load inst v n"
proof -
  have bin: "\<forall>b\<in>set (B inst). v (Var_x b n) = 0 \<or> v (Var_x b n) = 1"
    using f n by (simp add: feasible_build [OF b])
  have "load inst (concat (map (printed (loaded t v) (B inst)) (N inst))) n
        = (\<Sum>b\<leftarrow>filter (\<lambda>b. v (Var_x b n) \<noteq> 0) (B inst). weight inst b)"
    by (simp add: load_def lines_of_wagon [OF d n] printed_def comp_def indicator_nonzero_loaded)
  also have "\<dots> = wagon_load inst v n"
    unfolding wagon_load_def by (rule binary_weighted_sum [OF bin])
  finally show ?thesis .
qed

lemma report_objective_loaded: "report_objective (loaded t v) = Inr (v Var_W)"
  by (simp add: report_objective_def pyo_value_def loaded_def)

lemma pyo_value_status: "pyo_value (r\<lparr>termination_condition := t\<rparr>) y = pyo_value r y"
  by (simp add: pyo_value_def)

lemma decode_boxes_status:
  "decode_boxes (r\<lparr>termination_condition := t\<rparr>) n bs out = decode_boxes r n bs out"
  by (induction bs arbitrary: out) (simp_all add: pyo_value_status split: sum.splits)

lemma decode_wagons_status:
  "decode_wagons (r\<lparr>termination_condition := t\<rparr>) bs ns out = decode_wagons r bs ns out"
  by (induction ns arbitrary: out) (simp_all add: decode_boxes_status split: sum.splits)

section \<open>Replacing one weight\<close>

lemma set_weight_B: "B (set_weight inst b0 w') = B inst"
  by (simp add: set_weight_def B_def comp_def case_prod_beta if_distrib [of fst] cong: if_cong)

lemma set_weight_N: "N (set_weight inst b0 w') = N inst"
  by (simp add: set_weight_def N_def)

lemma map_of_set_weight:
  "map_of (map (\<lambda>(b, w). if b = b0 then (b, w') else (b, w)) rows) b
   = (case map_of rows b of None \<Rightarrow> None | Some w \<Rightarrow> Some (if b = b0 then w' else w))"
  by (induction rows) auto

lemma set_weight_weight:
  "b \<in> set (B inst) \<Longrightarrow>
   weight (set_weight inst b0 w') b = (if b = b0 then w' else weight inst b)"
proof -
  assume "b \<in> set (B inst)"
  then have "map_of (boxes inst) b \<noteq> None"
    by (simp add: B_def map_of_eq_None_iff)
  then show ?thesis
    by (auto simp: weight_def wb_def set_weight_def map_of_set_weight)
qed

lemma wagon_load_mono_weight:
  assumes le: "weight inst b0 \<le> w'"
    and bin: "\<forall>b\<in>set (B inst). v (Var_x b n) = 0 \<or> v (Var_x b n) = 1"
  shows "wagon_load inst v n \<le> wagon_load (set_weight inst b0 w') v n"
  unfolding wagon_load_def set_weight_B
proof (rule sum_list_mono)
  fix b assume b: "b \<in> set (B inst)"
  have "weight inst b \<le> weight (set_weight inst b0 w') b"
    using le by (simp add: set_weight_weight [OF b])
  moreover have "0 \<le> v (Var_x b n)" using bin b by auto
  ultimately show "weight inst b * v (Var_x b n) \<le> weight (set_weight inst b0 w') b * v (Var_x b n)"
    by (rule mult_right_mono)
qed

lemma feasible_lighter:
  assumes b: "build_model inst = Inr m" and b': "build_model (set_weight inst b0 w') = Inr m'"
    and le: "weight inst b0 \<le> w'" and f: "feasible m' v"
  shows "feasible m v"
proof -
  from f have bin: "\<forall>b\<in>set (B inst). \<forall>n\<in>set (N inst). v (Var_x b n) = 0 \<or> v (Var_x b n) = 1"
    and W: "0 \<le> v Var_W"
    and one: "\<forall>b\<in>set (B inst). (\<Sum>n\<leftarrow>N inst. v (Var_x b n)) = 1"
    and bound: "\<forall>n\<in>set (N inst). wagon_load (set_weight inst b0 w') v n \<le> v Var_W"
    by (simp_all add: feasible_build [OF b'] set_weight_B set_weight_N wagon_load_def)
  have "\<forall>n\<in>set (N inst). wagon_load inst v n \<le> v Var_W"
  proof
    fix n assume n: "n \<in> set (N inst)"
    have "wagon_load inst v n \<le> wagon_load (set_weight inst b0 w') v n"
      using bin n by (intro wagon_load_mono_weight [OF le]) blast
    also have "\<dots> \<le> v Var_W" using bound n by blast
    finally show "wagon_load inst v n \<le> v Var_W" .
  qed
  with bin W one show ?thesis
    by (simp add: feasible_build [OF b] wagon_load_def)
qed

section \<open>The notebook's data and its optimum\<close>

lemma notebook_B: "B notebook_instance = [1, 2, 3, 4, 5, 6, 7, 8, 9, 10, 11, 12, 13, 14, 15, 16]"
  by (simp add: B_def notebook_instance_def)

lemma notebook_N: "N notebook_instance = [1, 2, 3]"
  by (simp add: N_def notebook_instance_def)

lemma notebook_weights:
  "map (weight notebook_instance) (B notebook_instance)
   = [34, 6, 8, 17, 16, 5, 13, 21, 25, 31, 14, 13, 33, 9, 25, 25]"
  by (simp add: notebook_B) (simp add: weight_def wb_def notebook_instance_def)

lemma notebook_build: "build_model notebook_instance = Inr notebook_model"
  by (simp add: build_model_eq notebook_model_def notebook_N)

lemma notebook_feasible: "feasible notebook_model (valuation_of notebook_assignment 99)"
  unfolding feasible_build [OF notebook_build] notebook_B notebook_N
  by (simp add: valuation_of_def notebook_assignment_def weight_def wb_def notebook_instance_def)

lemma notebook_total: "(\<Sum>b\<leftarrow>B notebook_instance. weight notebook_instance b) = 295"
  by (simp only: notebook_weights) simp

lemma notebook_weights_Ints: "\<forall>b\<in>set (B notebook_instance). weight notebook_instance b \<in> \<int>"
proof -
  have "\<forall>q\<in>set (map (weight notebook_instance) (B notebook_instance)). q \<in> \<int>"
    by (simp only: notebook_weights) simp
  then show ?thesis by simp
qed

lemma notebook_lower_bound:
  assumes "feasible notebook_model v"
  shows "99 \<le> v Var_W"
proof -
  have "real (length (N notebook_instance)) * real_of_int (99 - 1)
        < (\<Sum>b\<leftarrow>B notebook_instance. weight notebook_instance b)"
    by (simp add: notebook_total notebook_N)
  from feasible_W_lower_bound [OF notebook_build assms notebook_weights_Ints this]
  show ?thesis by simp
qed

lemma notebook_optimal: "is_optimal notebook_model (valuation_of notebook_assignment 99)"
  unfolding is_optimal_build [OF notebook_build]
  using notebook_feasible notebook_lower_bound by (simp add: valuation_of_def)

lemma notebook_optimal_value:
  assumes "is_optimal notebook_model v"
  shows "v Var_W = 99"
proof -
  from assms have f: "feasible notebook_model v"
    and least: "\<And>v'. feasible notebook_model v' \<Longrightarrow> v Var_W \<le> v' Var_W"
    by (simp_all add: is_optimal_build [OF notebook_build])
  from least [OF notebook_feasible] have "v Var_W \<le> 99" by (simp add: valuation_of_def)
  with notebook_lower_bound [OF f] show ?thesis by simp
qed

lemma notebook_decode:
  "decode notebook_instance (loaded tc_optimal (valuation_of notebook_assignment 99))
   = Inr notebook_assignment"
  unfolding decode_loaded_valuation notebook_B notebook_N
  by (simp add: printed_def indicator_nonzero_loaded valuation_of_def notebook_assignment_def)

lemma heavier_B: "B heavier_instance = [1, 2, 3, 4, 5, 6, 7, 8, 9, 10, 11, 12, 13, 14, 15, 16]"
  by (simp add: heavier_instance_def set_weight_B notebook_B)

lemma heavier_N: "N heavier_instance = [1, 2, 3]"
  by (simp add: heavier_instance_def set_weight_N notebook_N)

lemma heavier_weights:
  "map (weight heavier_instance) (B heavier_instance)
   = [34, 6, 8, 17, 16, 8, 13, 21, 25, 31, 14, 13, 33, 9, 25, 25]"
  by (simp add: heavier_B)
     (simp add: weight_def wb_def heavier_instance_def set_weight_def notebook_instance_def)

lemma heavier_build: "build_model heavier_instance = Inr heavier_model"
  by (simp add: build_model_eq heavier_model_def heavier_N)

lemma heavier_feasible: "feasible heavier_model (valuation_of heavier_assignment 100)"
  unfolding feasible_build [OF heavier_build] heavier_B heavier_N
  by (simp add: valuation_of_def heavier_assignment_def weight_def wb_def heavier_instance_def
      set_weight_def notebook_instance_def)

lemma heavier_weights_Ints: "\<forall>b\<in>set (B heavier_instance). weight heavier_instance b \<in> \<int>"
proof -
  have "\<forall>q\<in>set (map (weight heavier_instance) (B heavier_instance)). q \<in> \<int>"
    by (simp only: heavier_weights) simp
  then show ?thesis by simp
qed

lemma heavier_lower_bound:
  assumes "feasible heavier_model v"
  shows "100 \<le> v Var_W"
proof -
  have "(\<Sum>b\<leftarrow>B heavier_instance. weight heavier_instance b) = 298"
    by (simp only: heavier_weights) simp
  then have "real (length (N heavier_instance)) * real_of_int (100 - 1)
        < (\<Sum>b\<leftarrow>B heavier_instance. weight heavier_instance b)"
    by (simp add: heavier_N)
  from feasible_W_lower_bound [OF heavier_build assms heavier_weights_Ints this]
  show ?thesis by simp
qed

lemma heavier_optimal: "is_optimal heavier_model (valuation_of heavier_assignment 100)"
  unfolding is_optimal_build [OF heavier_build]
  using heavier_feasible heavier_lower_bound by (simp add: valuation_of_def)

lemma weight_of_row:
  assumes "distinct (B inst)" and "(b, w) \<in> set (boxes inst)"
  shows "weight inst b = w"
proof -
  from assms have "map_of (boxes inst) b = Some w"
    by (simp add: B_def)
  then show ?thesis by (simp add: weight_def wb_def)
qed

lemma wagon_load_rows:
  assumes "distinct (B inst)"
  shows "(\<Sum>b\<leftarrow>B inst. weight inst b * f b) = (\<Sum>(b, w)\<leftarrow>boxes inst. w * f b)"
proof -
  have "(\<Sum>b\<leftarrow>B inst. weight inst b * f b)
        = sum_list (map (\<lambda>p. weight inst (fst p) * f (fst p)) (boxes inst))"
    by (simp add: B_def comp_def)
  also have "\<dots> = sum_list (map (\<lambda>(b, w). w * f b) (boxes inst))"
    by (rule arg_cong [where f = sum_list], rule map_cong)
       (auto simp: weight_of_row [OF assms])
  finally show ?thesis .
qed

section \<open>The model that is built\<close>

text \<open>
  C1. For boxes B with weights w, and wagons N (labels distinct, at least one wagon),
  the construction cell succeeds, and the model it builds has exactly: the variables
  x[b,n], one for every pair of a box and a wagon and each binary, and W, which is a
  non-negative real; the objective W, minimised; in constraint1 one row per box b, in
  the order of B, which holds exactly when the x[b,n] add up to 1 over the wagons; in
  constraint2 one row per wagon n, in the order of N, which holds exactly when the sum
  over the boxes of w_b * x[b,n] is at most W. The model has no other component. B and
  N are the labels of the two sheets and w_b is the Weight that the row of box b has in
  the boxes sheet.
\<close>

theorem build_model_exposes:
  assumes dB: "distinct (B inst)" and dN: "distinct (N inst)" and ne: "N inst \<noteq> []"
  shows "\<exists>m. build_model inst = Inr m
     \<and> set (variables m)
         = {(Var_x b n, Binary) | b n. b \<in> set (B inst) \<and> n \<in> set (N inst)}
           \<union> {(Var_W, NonNegativeReals)}
     \<and> distinct (map fst (variables m))
     \<and> objective m = V Var_W \<and> objective_sense m = minimize
     \<and> length (constraint1 m) = length (B inst)
     \<and> (\<forall>i<length (B inst). \<forall>v.
           holds v (constraint1 m ! i) \<longleftrightarrow> (\<Sum>n\<leftarrow>N inst. v (Var_x (B inst ! i) n)) = 1)
     \<and> length (constraint2 m) = length (N inst)
     \<and> (\<forall>j<length (N inst). \<forall>v.
           holds v (constraint2 m ! j)
           \<longleftrightarrow> (\<Sum>b\<leftarrow>B inst. weight inst b * v (Var_x b (N inst ! j))) \<le> v Var_W)
     \<and> (\<forall>j<length (N inst). \<forall>v.
           holds v (constraint2 m ! j)
           \<longleftrightarrow> (\<Sum>(b, w)\<leftarrow>boxes inst. w * v (Var_x b (N inst ! j))) \<le> v Var_W)
     \<and> B inst = map fst (boxes inst) \<and> N inst = map fst (wagons inst)
     \<and> (\<forall>(b, w)\<in>set (boxes inst). weight inst b = w)"
proof -
  let ?m = "\<lparr>variables = x_vars inst @ [(Var_W, NonNegativeReals)],
             objective = V Var_W, objective_sense = minimize,
             constraint1 = map (assign_row inst) (B inst),
             constraint2 = map (bound_row inst) (N inst)\<rparr>"
  have 1: "build_model inst = Inr ?m" using ne by (simp add: build_model_eq)
  have 2: "set (variables ?m)
         = {(Var_x b n, Binary) | b n. b \<in> set (B inst) \<and> n \<in> set (N inst)}
           \<union> {(Var_W, NonNegativeReals)}"
    by (auto simp: x_vars_def)
  have "Var_W \<notin> set (map fst (x_vars inst))" by (auto simp: x_vars_def)
  then have 3: "distinct (map fst (variables ?m))"
    using x_vars_distinct [OF dB dN] by simp
  have 4: "\<forall>i<length (B inst). \<forall>v.
           holds v (constraint1 ?m ! i) \<longleftrightarrow> (\<Sum>n\<leftarrow>N inst. v (Var_x (B inst ! i) n)) = 1"
    by (simp add: assign_row_def eval_py_sum comp_def)
  have 5: "\<forall>j<length (N inst). \<forall>v.
           holds v (constraint2 ?m ! j)
           \<longleftrightarrow> (\<Sum>b\<leftarrow>B inst. weight inst b * v (Var_x b (N inst ! j))) \<le> v Var_W"
    by (simp add: bound_row_def eval_py_sum comp_def)
  have 6: "\<forall>j<length (N inst). \<forall>v.
           holds v (constraint2 ?m ! j)
           \<longleftrightarrow> (\<Sum>(b, w)\<leftarrow>boxes inst. w * v (Var_x b (N inst ! j))) \<le> v Var_W"
    using 5 by (simp only: wagon_load_rows [OF dB])
  have 7: "\<forall>(b, w)\<in>set (boxes inst). weight inst b = w"
    using weight_of_row [OF dB] by blast
  show ?thesis
    apply (rule exI [of _ ?m])
    apply (intro conjI)
               apply (rule 1)
              apply (rule 2)
             apply (rule 3)
            apply simp
           apply simp
          apply simp
         apply (rule 4)
        apply simp
       apply (rule 5)
      apply (rule 6)
     apply (simp add: B_def)
    apply (simp add: N_def)
    apply (rule 7)
    done
qed

theorem build_model_exposes_witness:
  "distinct (B notebook_instance) \<and> distinct (N notebook_instance)
   \<and> N notebook_instance \<noteq> []
   \<and> build_model notebook_instance = Inr notebook_model
   \<and> length (variables notebook_model) = 49
   \<and> length (constraint1 notebook_model) = 16
   \<and> length (constraint2 notebook_model) = 3
   \<and> constraint1 notebook_model ! 15
       = Equality (py_sum [V (Var_x 16 1), V (Var_x 16 2), V (Var_x 16 3)]) (Const 1)
   \<and> constraint2 notebook_model ! 1
       = Inequality
           (py_sum [Mul 34 (V (Var_x 1 2)), Mul 6 (V (Var_x 2 2)), Mul 8 (V (Var_x 3 2)),
                    Mul 17 (V (Var_x 4 2)), Mul 16 (V (Var_x 5 2)), Mul 5 (V (Var_x 6 2)),
                    Mul 13 (V (Var_x 7 2)), Mul 21 (V (Var_x 8 2)), Mul 25 (V (Var_x 9 2)),
                    Mul 31 (V (Var_x 10 2)), Mul 14 (V (Var_x 11 2)), Mul 13 (V (Var_x 12 2)),
                    Mul 33 (V (Var_x 13 2)), Mul 9 (V (Var_x 14 2)), Mul 25 (V (Var_x 15 2)),
                    Mul 25 (V (Var_x 16 2))])
           (V Var_W)
   \<and> weight notebook_instance 13 = 33"
proof -
  have dB: "distinct (B notebook_instance)" and dN: "distinct (N notebook_instance)"
    and ne: "N notebook_instance \<noteq> []"
    by (simp_all add: notebook_B notebook_N)
  from build_model_exposes [OF dB dN ne] obtain m
    where m: "build_model notebook_instance = Inr m"
      and l1: "length (constraint1 m) = length (B notebook_instance)"
      and l2: "length (constraint2 m) = length (N notebook_instance)"
      and w: "\<forall>(b, w)\<in>set (boxes notebook_instance). weight notebook_instance b = w"
    by blast
  from m have mm: "m = notebook_model" by (simp add: notebook_build)
  have l1': "length (constraint1 notebook_model) = 16"
    using l1 by (simp add: mm notebook_B)
  have l2': "length (constraint2 notebook_model) = 3"
    using l2 by (simp add: mm notebook_N)
  have "(13, 33) \<in> set (boxes notebook_instance)"
    by (simp add: notebook_instance_def)
  from bspec [OF w this] have w13: "weight notebook_instance 13 = 33" by simp
  have lv: "length (variables notebook_model) = 49"
    by (simp add: notebook_model_def x_vars_def notebook_B notebook_N)
  have c1: "constraint1 notebook_model ! 15
       = Equality (py_sum [V (Var_x 16 1), V (Var_x 16 2), V (Var_x 16 3)]) (Const 1)"
    by (simp add: notebook_model_def notebook_B notebook_N assign_row_def)
  have rows: "map (weight notebook_instance) [1, 2, 3, 4, 5, 6, 7, 8, 9, 10, 11, 12, 13, 14, 15, 16]
      = [34, 6, 8, 17, 16, 5, 13, 21, 25, 31, 14, 13, 33, 9, 25, 25]"
    using notebook_weights by (simp only: notebook_B)
  have c2: "constraint2 notebook_model ! 1
       = Inequality
           (py_sum [Mul 34 (V (Var_x 1 2)), Mul 6 (V (Var_x 2 2)), Mul 8 (V (Var_x 3 2)),
                    Mul 17 (V (Var_x 4 2)), Mul 16 (V (Var_x 5 2)), Mul 5 (V (Var_x 6 2)),
                    Mul 13 (V (Var_x 7 2)), Mul 21 (V (Var_x 8 2)), Mul 25 (V (Var_x 9 2)),
                    Mul 31 (V (Var_x 10 2)), Mul 14 (V (Var_x 11 2)), Mul 13 (V (Var_x 12 2)),
                    Mul 33 (V (Var_x 13 2)), Mul 9 (V (Var_x 14 2)), Mul 25 (V (Var_x 15 2)),
                    Mul 25 (V (Var_x 16 2))])
           (V Var_W)"
    using rows by (simp add: notebook_model_def notebook_B notebook_N bound_row_def)
  show ?thesis
    apply (intro conjI)
             apply (rule dB)
            apply (rule dN)
           apply (rule ne)
          apply (rule notebook_build)
         apply (rule lv)
        apply (rule l1')
       apply (rule l2')
      apply (rule c1)
     apply (rule c2)
    apply (rule w13)
    done
qed

section \<open>The optimum and the assignment\<close>

text \<open>
  C2. When the solver reports optimal, i.e. the loaded values form an optimal valuation
  of the built model, the objective value that the last cell prints equals the largest
  load among the wagons, where the load of a wagon is the sum of the weights of the boxes
  printed with it by the decoding cell; the bound is attained by some wagon. The
  instance is as the specification requires it: weights are not negative, there is a
  wagon, and labels are distinct.
\<close>

theorem reported_bottleneck_is_max_load:
  assumes b: "build_model inst = Inr m" and o: "is_optimal m v"
    and w: "\<forall>b\<in>set (B inst). 0 \<le> weight inst b"
    and ne: "N inst \<noteq> []" and d: "distinct (N inst)" and dB: "distinct (B inst)"
  shows "\<exists>ls. decode inst (loaded tc_optimal v) = Inr ls
           \<and> report_objective (loaded tc_optimal v) = Inr (objective_value m v)
           \<and> objective_value m v = Max (load inst ls ` set (N inst))
           \<and> (\<exists>n\<in>set (N inst). load inst ls n = objective_value m v)"
proof -
  let ?ls = "concat (map (printed (loaded tc_optimal v) (B inst)) (N inst))"
  from o have f: "feasible m v" by (simp add: is_optimal_def)
  have img: "load inst ?ls ` set (N inst) = wagon_load inst v ` set (N inst)"
    by (rule image_cong) (simp_all add: load_printed [OF b f d])
  have fin: "finite (load inst ?ls ` set (N inst))" and ne': "load inst ?ls ` set (N inst) \<noteq> {}"
    using ne by simp_all
  have val: "objective_value m v = Max (load inst ?ls ` set (N inst))"
    unfolding img objective_value_build [OF b] by (rule optimal_W_nonneg_weights [OF b o w ne])
  from Max_in [OF fin ne'] have "\<exists>n\<in>set (N inst). load inst ?ls n = objective_value m v"
    unfolding val by auto
  with val show ?thesis
    by (simp add: decode_loaded_valuation report_objective_loaded objective_value_build [OF b])
qed

theorem reported_bottleneck_is_max_load_witness:
  "build_model notebook_instance = Inr notebook_model
   \<and> N notebook_instance \<noteq> [] \<and> distinct (N notebook_instance)
   \<and> distinct (B notebook_instance)
   \<and> is_optimal notebook_model (valuation_of notebook_assignment 99)
   \<and> report_objective (loaded tc_optimal (valuation_of notebook_assignment 99)) = Inr 99
   \<and> Max (load notebook_instance notebook_assignment ` set (N notebook_instance)) = 99"
proof -
  have w: "\<forall>b\<in>set (B notebook_instance). 0 \<le> weight notebook_instance b"
  proof -
    have "\<forall>q\<in>set (map (weight notebook_instance) (B notebook_instance)). 0 \<le> q"
      by (simp only: notebook_weights) simp
    then show ?thesis by simp
  qed
  have ne: "N notebook_instance \<noteq> []" and d: "distinct (N notebook_instance)"
    by (simp_all add: notebook_N)
  have dB: "distinct (B notebook_instance)" by (simp add: notebook_B)
  from reported_bottleneck_is_max_load [OF notebook_build notebook_optimal w ne d dB]
  show ?thesis
    by (simp add: notebook_build notebook_optimal notebook_decode ne d dB
        objective_value_build [OF notebook_build] valuation_of_def report_objective_loaded)
qed

text \<open>
  C3. In every feasible valuation of the built model (so in every optimal one) the
  indicators of each box add up to 1 over the wagons, and the decoding cell prints
  exactly one line for the box: it maps the box to exactly one wagon. Labels are
  distinct.
\<close>

theorem each_box_in_exactly_one_wagon:
  assumes b: "build_model inst = Inr m" and f: "feasible m v"
    and d: "distinct (B inst)" and dN: "distinct (N inst)" and b0: "b0 \<in> set (B inst)"
  shows "(\<Sum>n\<leftarrow>N inst. v (Var_x b0 n)) = 1
         \<and> (\<exists>ls n. decode inst (loaded t v) = Inr ls \<and> n \<in> set (N inst)
                 \<and> filter (\<lambda>l. fst l = b0) ls = [(b0, n)])"
proof -
  let ?ls = "concat (map (printed (loaded t v) (B inst)) (N inst))"
  have one: "(\<Sum>n\<leftarrow>N inst. v (Var_x b0 n)) = 1"
    using f b0 by (simp add: feasible_build [OF b])
  from feasible_one_nonzero [OF b f b0] obtain n
    where n: "n \<in> set (N inst)" and ns: "filter (\<lambda>n. v (Var_x b0 n) \<noteq> 0) (N inst) = [n]"
    by blast
  have "filter (\<lambda>l. fst l = b0) ?ls = map (Pair b0) (filter (indicator_nonzero (loaded t v) b0) (N inst))"
    by (rule lines_of_box [OF d b0])
  also have "indicator_nonzero (loaded t v) b0 = (\<lambda>n. v (Var_x b0 n) \<noteq> 0)"
    by (rule ext) (simp add: indicator_nonzero_loaded)
  also note ns
  finally have "filter (\<lambda>l. fst l = b0) ?ls = [(b0, n)]" by simp
  with n one show ?thesis
    using decode_loaded_valuation [of inst t v] by blast
qed

theorem each_box_in_exactly_one_wagon_witness:
  "build_model notebook_instance = Inr notebook_model
   \<and> feasible notebook_model (valuation_of notebook_assignment 99)
   \<and> distinct (B notebook_instance) \<and> distinct (N notebook_instance)
   \<and> (13 :: box) \<in> set (B notebook_instance)
   \<and> (\<Sum>n\<leftarrow>N notebook_instance. valuation_of notebook_assignment 99 (Var_x 13 n)) = 1
   \<and> filter (\<lambda>l. fst l = 13) notebook_assignment = [(13, 1)]"
proof -
  have d: "distinct (B notebook_instance)" and b0: "13 \<in> set (B notebook_instance)"
    by (simp_all add: notebook_B)
  have dN: "distinct (N notebook_instance)" by (simp add: notebook_N)
  from each_box_in_exactly_one_wagon [OF notebook_build notebook_feasible d dN b0, of tc_optimal]
  show ?thesis
    by (simp add: notebook_build notebook_feasible d dN notebook_decode)
       (simp add: notebook_B notebook_assignment_def)
qed

section \<open>Errors and the termination condition\<close>

text \<open>
  C4, as the code has it. The construction cell checks nothing about its input and has
  no ConfigurationError. For distinct labels and at least one wagon it succeeds,
  whatever the signs of the weights and also when there is no box. With no wagon and
  at least one box it fails.
\<close>

theorem build_model_validates_nothing:
  assumes "distinct (B inst)" and "distinct (N inst)"
  shows "build_model inst \<noteq> Inl ConfigurationError
         \<and> (N inst \<noteq> [] \<longrightarrow> (\<exists>m. build_model inst = Inr m))
         \<and> (N inst = [] \<and> B inst \<noteq> [] \<longrightarrow> (\<exists>e. build_model inst = Inl e))"
  by (simp add: build_model_eq)

theorem build_model_validates_nothing_witness:
  "distinct (B \<lparr>boxes = [(1, - 5), (2, 3)], wagons = [(1, 100)]\<rparr>)
   \<and> distinct (N \<lparr>boxes = [(1, - 5), (2, 3)], wagons = [(1, 100)]\<rparr>)
   \<and> N \<lparr>boxes = [(1, - 5), (2, 3)], wagons = [(1, 100)]\<rparr> \<noteq> []
   \<and> build_model \<lparr>boxes = [(1, - 5), (2, 3)], wagons = [(1, 100)]\<rparr>
       \<noteq> Inl ConfigurationError
   \<and> (\<exists>m. build_model \<lparr>boxes = [(1, - 5), (2, 3)], wagons = [(1, 100)]\<rparr> = Inr m)"
proof -
  have d: "distinct (B \<lparr>boxes = [(1, - 5), (2, 3)], wagons = [(1, 100)]\<rparr>)"
    "distinct (N \<lparr>boxes = [(1, - 5), (2, 3)], wagons = [(1, 100)]\<rparr>)"
    by (simp_all add: B_def N_def)
  have ne: "N \<lparr>boxes = [(1, - 5), (2, 3)], wagons = [(1, 100)]\<rparr> \<noteq> []"
    by (simp add: N_def)
  from build_model_validates_nothing [OF d] show ?thesis
    using d ne by simp
qed

text \<open>
  C4 as the specification words it fails: with a negative weight the construction cell
  returns a model, not ConfigurationError.
\<close>

theorem negative_weight_builds_counterexample:
  "build_model \<lparr>boxes = [(1, - 5)], wagons = [(1, 100)]\<rparr>
   = Inr \<lparr>variables = [(Var_x 1 1, Binary), (Var_W, NonNegativeReals)],
          objective = V Var_W, objective_sense = minimize,
          constraint1 = [Equality (Add (Const 0) (V (Var_x 1 1))) (Const 1)],
          constraint2 = [Inequality (Add (Const 0) (Mul (- 5) (V (Var_x 1 1)))) (V Var_W)]\<rparr>"
  by (simp add: build_model_def B_def N_def wb_def py_sum_def)

text \<open>
  C5, as the code has it. Neither report cell looks at the termination condition: the
  decoding cell reads the value of every x[b,n], and the last cell reads the objective,
  whatever the solver reported, and both print the same for any two states that differ
  only in the termination condition. The one guard is that of \<^verbatim>\<open>pyo.value\<close>, which
  raises on a variable that holds no value.
\<close>

theorem report_ignores_termination_condition:
  "decode inst (r\<lparr>termination_condition := t\<rparr>) = decode inst r
   \<and> report_objective (r\<lparr>termination_condition := t\<rparr>) = report_objective r"
  by (simp add: decode_def decode_wagons_status report_objective_def pyo_value_status)

theorem report_ignores_termination_condition_witness:
  "decode \<lparr>boxes = [(1, 5)], wagons = [(1, 100)]\<rparr>
     ((loaded tc_optimal (valuation_of [(1, 1)] 5))\<lparr>termination_condition := tc_error\<rparr>)
   = decode \<lparr>boxes = [(1, 5)], wagons = [(1, 100)]\<rparr>
       (loaded tc_optimal (valuation_of [(1, 1)] 5))
   \<and> decode \<lparr>boxes = [(1, 5)], wagons = [(1, 100)]\<rparr>
     ((loaded tc_optimal (valuation_of [(1, 1)] 5))\<lparr>termination_condition := tc_error\<rparr>)
   = Inr [(1, 1)]
   \<and> report_objective
       ((loaded tc_optimal (valuation_of [(1, 1)] 5))\<lparr>termination_condition := tc_error\<rparr>)
     = Inr 5"
  using report_ignores_termination_condition
    [where inst = "\<lparr>boxes = [(1, 5)], wagons = [(1, 100)]\<rparr>"
       and r = "loaded tc_optimal (valuation_of [(1, 1)] 5)" and t = tc_error]
  by (simp add: decode_def B_def N_def pyo_value_def loaded_def valuation_of_def
      report_objective_def)

text \<open>
  C5 as the specification words it fails: in a state whose termination condition is
  not optimal (the time limit was reached) the cells read the values and print them,
  and what they print follows the values.
\<close>

theorem values_read_when_not_optimal_counterexample:
  "termination_condition (loaded tc_maxTimeLimit (valuation_of [(1, 1)] 7)) \<noteq> tc_optimal
   \<and> decode \<lparr>boxes = [(1, 5)], wagons = [(1, 100)]\<rparr>
        (loaded tc_maxTimeLimit (valuation_of [(1, 1)] 7)) = Inr [(1, 1)]
   \<and> report_objective (loaded tc_maxTimeLimit (valuation_of [(1, 1)] 7)) = Inr 7
   \<and> decode \<lparr>boxes = [(1, 5)], wagons = [(1, 100)]\<rparr>
        (loaded tc_maxTimeLimit (valuation_of [] 0)) = Inr []
   \<and> report_objective (loaded tc_maxTimeLimit (valuation_of [] 0)) = Inr 0"
  by (simp add: decode_def B_def N_def pyo_value_def loaded_def valuation_of_def
      report_objective_def)

text \<open>
  C6, as the code has it. The decoding cell has no DecodeError. When every indicator
  holds a value it prints exactly the pairs of a box and a wagon whose indicator is not
  zero, wagon by wagon in the order of N and, for one wagon, in the order of B. So for
  each box (box labels distinct) it prints one line for every wagon whose indicator is
  not zero: no line for a box without such a wagon, several lines for a box with several.
\<close>

theorem decode_prints_every_nonzero:
  "decode inst r \<noteq> Inl DecodeError
   \<and> ((\<forall>n\<in>set (N inst). \<forall>b\<in>set (B inst). var_value r (Var_x b n) \<noteq> None)
      \<longrightarrow> decode inst r
            = Inr (concat (map (\<lambda>n. map (\<lambda>b. (b, n))
                                      (filter (\<lambda>b. indicator_nonzero r b n) (B inst)))
                               (N inst)))
          \<and> (distinct (B inst) \<longrightarrow>
               (\<exists>ls. decode inst r = Inr ls
                  \<and> (\<forall>b\<in>set (B inst).
                        filter (\<lambda>l. fst l = b) ls
                        = map (Pair b) (filter (indicator_nonzero r b) (N inst))))))"
proof
  show "decode inst r \<noteq> Inl DecodeError"
    using decode_wagons_error [of r "B inst" "N inst" "[]" DecodeError]
    by (auto simp: decode_def)
next
  show "(\<forall>n\<in>set (N inst). \<forall>b\<in>set (B inst). var_value r (Var_x b n) \<noteq> None)
      \<longrightarrow> decode inst r
            = Inr (concat (map (\<lambda>n. map (\<lambda>b. (b, n))
                                      (filter (\<lambda>b. indicator_nonzero r b n) (B inst)))
                               (N inst)))
          \<and> (distinct (B inst) \<longrightarrow>
               (\<exists>ls. decode inst r = Inr ls
                  \<and> (\<forall>b\<in>set (B inst).
                        filter (\<lambda>l. fst l = b) ls
                        = map (Pair b) (filter (indicator_nonzero r b) (N inst)))))"
  proof (intro impI conjI)
    assume h: "\<forall>n\<in>set (N inst). \<forall>b\<in>set (B inst). var_value r (Var_x b n) \<noteq> None"
    have pr: "printed r (B inst)
              = (\<lambda>n. map (\<lambda>b. (b, n)) (filter (\<lambda>b. indicator_nonzero r b n) (B inst)))"
      by (rule ext) (simp add: printed_def)
    have dec: "decode inst r = Inr (concat (map (printed r (B inst)) (N inst)))"
      using h by (rule decode_loaded)
    then show "decode inst r
            = Inr (concat (map (\<lambda>n. map (\<lambda>b. (b, n))
                                      (filter (\<lambda>b. indicator_nonzero r b n) (B inst)))
                               (N inst)))"
      by (simp only: pr)
    assume d: "distinct (B inst)"
    have "\<forall>b\<in>set (B inst).
        filter (\<lambda>l. fst l = b) (concat (map (printed r (B inst)) (N inst)))
        = map (Pair b) (filter (indicator_nonzero r b) (N inst))"
      using d by (auto intro: lines_of_box)
    with dec show "\<exists>ls. decode inst r = Inr ls
             \<and> (\<forall>b\<in>set (B inst).
                   filter (\<lambda>l. fst l = b) ls
                   = map (Pair b) (filter (indicator_nonzero r b) (N inst)))"
      by blast
  qed
qed

theorem decode_prints_every_nonzero_witness:
  "distinct (B \<lparr>boxes = [(1, 5), (2, 3), (3, 4)], wagons = [(1, 100), (2, 100)]\<rparr>)
   \<and> decode \<lparr>boxes = [(1, 5), (2, 3), (3, 4)], wagons = [(1, 100), (2, 100)]\<rparr> crossed_state
       = Inr [(2, 1), (1, 2), (2, 2)]
   \<and> filter (indicator_nonzero crossed_state 1) [1, 2] = [2]
   \<and> filter (indicator_nonzero crossed_state 2) [1, 2] = [1, 2]
   \<and> filter (indicator_nonzero crossed_state 3) [1, 2] = []"
  using decode_prints_every_nonzero
    [of "\<lparr>boxes = [(1, 5), (2, 3), (3, 4)], wagons = [(1, 100), (2, 100)]\<rparr>" crossed_state]
  by (simp add: decode_def B_def N_def pyo_value_def loaded_def valuation_of_def
      crossed_state_def indicator_nonzero_def)

text \<open>
  C6 as the specification words it fails: in that state the decoding cell returns
  normally, with two lines for box 1 and none for box 2.
\<close>

theorem decode_no_DecodeError_counterexample:
  "decode \<lparr>boxes = [(1, 5), (2, 3)], wagons = [(1, 100), (2, 100)]\<rparr> inconsistent_state
     = Inr [(1, 1), (1, 2)]
   \<and> decode \<lparr>boxes = [(1, 5), (2, 3)], wagons = [(1, 100), (2, 100)]\<rparr> inconsistent_state
     \<noteq> Inl DecodeError"
  by (simp add: decode_def B_def N_def pyo_value_def loaded_def valuation_of_def
      inconsistent_state_def)

section \<open>Monotonicity, the notebook scenario, capacities, integrality\<close>

text \<open>
  C7. Making one box heavier and leaving the rest of the data (labels distinct) as it is
  never lowers the
  optimal bottleneck value: an optimal valuation of the model of the heavier data
  has an objective value at least that of an optimal valuation of the model of the
  original data.
\<close>

theorem optimum_monotone_in_weight:
  assumes b: "build_model inst = Inr m" and b': "build_model (set_weight inst b0 w') = Inr m'"
    and le: "weight inst b0 \<le> w'"
    and o: "is_optimal m v" and o': "is_optimal m' v'"
    and dB: "distinct (B inst)" and dN: "distinct (N inst)"
  shows "objective_value m v \<le> objective_value m' v'"
proof -
  from o' have "feasible m' v'" by (simp add: is_optimal_def)
  then have "feasible m v'" by (rule feasible_lighter [OF b b' le])
  with o have "v Var_W \<le> v' Var_W" by (simp add: is_optimal_build [OF b])
  then show ?thesis
    by (simp add: objective_value_build [OF b] objective_value_build [OF b'])
qed

theorem optimum_monotone_in_weight_witness:
  "build_model notebook_instance = Inr notebook_model
   \<and> distinct (B notebook_instance) \<and> distinct (N notebook_instance)
   \<and> build_model (set_weight notebook_instance 6 8) = Inr heavier_model
   \<and> weight notebook_instance 6 = 5
   \<and> is_optimal notebook_model (valuation_of notebook_assignment 99)
   \<and> is_optimal heavier_model (valuation_of heavier_assignment 100)
   \<and> objective_value notebook_model (valuation_of notebook_assignment 99) = 99
   \<and> objective_value heavier_model (valuation_of heavier_assignment 100) = 100"
proof -
  have b': "build_model (set_weight notebook_instance 6 8) = Inr heavier_model"
    using heavier_build by (simp add: heavier_instance_def)
  have w: "weight notebook_instance 6 = 5"
    by (simp add: weight_def wb_def notebook_instance_def)
  have le: "weight notebook_instance 6 \<le> 8" by (simp add: w)
  have dB: "distinct (B notebook_instance)" and dN: "distinct (N notebook_instance)"
    by (simp_all add: notebook_B notebook_N)
  from optimum_monotone_in_weight
    [OF notebook_build b' le notebook_optimal heavier_optimal dB dN]
  show ?thesis
    by (simp add: notebook_build b' w notebook_optimal heavier_optimal dB dN
        objective_value_build [OF notebook_build] objective_value_build [OF heavier_build]
        valuation_of_def)
qed

text \<open>
  C8, as the code has it. For the notebook's data (the sixteen weights 34, 6, 8, 17, 16,
  5, 13, 21, 25, 31, 14, 13, 33, 9, 25, 25 and three wagons) every optimal valuation has
  the objective value 99, the decoding cell prints an assignment in which every wagon
  carries at most 99, and the three loads add up to 295, the sum of the weights.
\<close>

theorem notebook_optimum:
  assumes b: "build_model notebook_instance = Inr m" and o: "is_optimal m v"
  shows "\<exists>ls. decode notebook_instance (loaded tc_optimal v) = Inr ls
           \<and> report_objective (loaded tc_optimal v) = Inr 99
           \<and> objective_value m v = 99
           \<and> (\<forall>n\<in>set (N notebook_instance). load notebook_instance ls n \<le> 99)
           \<and> (\<Sum>n\<leftarrow>N notebook_instance. load notebook_instance ls n) = 295
           \<and> sum_list (map snd (boxes notebook_instance)) = 295"
proof -
  let ?ls = "concat (map (printed (loaded tc_optimal v) (B notebook_instance)) (N notebook_instance))"
  from b have m: "m = notebook_model" by (simp add: notebook_build)
  from o have f: "feasible m v" by (simp add: is_optimal_def)
  have W: "v Var_W = 99" using o unfolding m by (rule notebook_optimal_value)
  have d: "distinct (N notebook_instance)" by (simp add: notebook_N)
  have ld: "load notebook_instance ?ls n = wagon_load notebook_instance v n"
    if "n \<in> set (N notebook_instance)" for n
    using that by (rule load_printed [OF b f d])
  have 1: "\<forall>n\<in>set (N notebook_instance). load notebook_instance ?ls n \<le> 99"
    using feasible_load_le [OF b f] by (simp add: ld W)
  have "(\<Sum>n\<leftarrow>N notebook_instance. load notebook_instance ?ls n)
        = (\<Sum>n\<leftarrow>N notebook_instance. wagon_load notebook_instance v n)"
    by (rule arg_cong [where f = sum_list], rule map_cong) (simp_all add: ld)
  then have 2: "(\<Sum>n\<leftarrow>N notebook_instance. load notebook_instance ?ls n) = 295"
    by (simp only: feasible_loads_total [OF b f] notebook_total)
  have 3: "sum_list (map snd (boxes notebook_instance)) = 295"
    by (simp add: notebook_instance_def)
  show ?thesis
    apply (rule exI [of _ ?ls])
    apply (intro conjI)
         apply (rule decode_loaded_valuation)
        apply (simp add: report_objective_loaded W)
       apply (simp add: objective_value_build [OF b] W)
      apply (rule 1)
     apply (rule 2)
    apply (rule 3)
    done
qed

theorem notebook_optimum_witness:
  "build_model notebook_instance = Inr notebook_model
   \<and> is_optimal notebook_model (valuation_of notebook_assignment 99)
   \<and> decode notebook_instance (loaded tc_optimal (valuation_of notebook_assignment 99))
       = Inr notebook_assignment
   \<and> load notebook_instance notebook_assignment 1 = 98
   \<and> load notebook_instance notebook_assignment 2 = 99
   \<and> load notebook_instance notebook_assignment 3 = 98"
  using notebook_optimum [OF notebook_build notebook_optimal]
  by (simp add: notebook_build notebook_optimal notebook_decode)
     (simp add: load_def notebook_assignment_def weight_def wb_def notebook_instance_def)

text \<open>
  C8 as the specification words it fails on the sum: in the assignment that the notebook
  printed, which is optimal, the three loads are 98, 99 and 98 and add up to 295, as
  the weights do, not to 299.
\<close>

theorem notebook_loads_sum_counterexample:
  "build_model notebook_instance = Inr notebook_model
   \<and> is_optimal notebook_model (valuation_of notebook_assignment 99)
   \<and> decode notebook_instance (loaded tc_optimal (valuation_of notebook_assignment 99))
       = Inr notebook_assignment
   \<and> load notebook_instance notebook_assignment 1
       + load notebook_instance notebook_assignment 2
       + load notebook_instance notebook_assignment 3 \<noteq> 299
   \<and> sum_list (map snd (boxes notebook_instance)) \<noteq> 299"
  by (simp add: notebook_build notebook_optimal notebook_decode)
     (simp add: load_def notebook_assignment_def weight_def wb_def notebook_instance_def)

text \<open>
  C9. The Capacity column of the wagons sheet is read and never used: two inputs with
  the same boxes and the same wagon labels, whatever their capacities, give the same
  model (the same variables, objective and rows, so the same feasible and optimal
  valuations and the same optimal value), and the report cells print the same.
\<close>

theorem capacities_are_ignored:
  assumes "boxes inst' = boxes inst" and "map fst (wagons inst') = map fst (wagons inst)"
  shows "build_model inst' = build_model inst
         \<and> (\<forall>m m'. build_model inst = Inr m \<and> build_model inst' = Inr m'
               \<longrightarrow> (\<forall>v. is_optimal m' v = is_optimal m v))
         \<and> decode inst' r = decode inst r"
proof -
  have BN: "B inst' = B inst" "N inst' = N inst"
    using assms by (simp_all add: B_def N_def)
  have w: "weight inst' = weight inst"
    using assms by (intro ext) (simp add: weight_def wb_def)
  have "build_model inst' = build_model inst"
    by (simp add: build_model_eq BN x_vars_def assign_row_def bound_row_def w)
  then show ?thesis by (auto simp: decode_def BN)
qed

theorem capacities_are_ignored_witness:
  "boxes (notebook_instance\<lparr>wagons := [(1, 10), (2, 20), (3, 30)]\<rparr>) = boxes notebook_instance
   \<and> map fst (wagons (notebook_instance\<lparr>wagons := [(1, 10), (2, 20), (3, 30)]\<rparr>))
       = map fst (wagons notebook_instance)
   \<and> build_model (notebook_instance\<lparr>wagons := [(1, 10), (2, 20), (3, 30)]\<rparr>)
       = Inr notebook_model
   \<and> is_optimal notebook_model (valuation_of notebook_assignment 99)"
proof -
  have 1: "boxes (notebook_instance\<lparr>wagons := [(1, 10), (2, 20), (3, 30)]\<rparr>) = boxes notebook_instance"
    by simp
  have 2: "map fst (wagons (notebook_instance\<lparr>wagons := [(1, 10), (2, 20), (3, 30)]\<rparr>))
       = map fst (wagons notebook_instance)"
    by (simp add: notebook_instance_def)
  from capacities_are_ignored [OF 1 2] show ?thesis
    using 2 by (simp add: notebook_build notebook_optimal)
qed

text \<open>
  C10. W is a continuous variable, yet with integer weights (labels distinct) the
  optimal objective value is an integer. With weights that are not negative and at least
  one wagon, it is the load of some wagon, a sum of integer weights.
\<close>

theorem optimal_value_is_integer:
  assumes b: "build_model inst = Inr m" and o: "is_optimal m v"
    and w: "\<forall>b\<in>set (B inst). weight inst b \<in> \<int>"
    and dB: "distinct (B inst)" and dN: "distinct (N inst)"
  shows "objective_value m v \<in> \<int>
         \<and> ((\<forall>b\<in>set (B inst). 0 \<le> weight inst b) \<and> N inst \<noteq> []
              \<longrightarrow> (\<exists>n\<in>set (N inst). objective_value m v = wagon_load inst v n))"
proof
  let ?S = "insert 0 (wagon_load inst v ` set (N inst))"
  from o have f: "feasible m v" by (simp add: is_optimal_def)
  have "Max ?S \<in> ?S" by (rule Max_in) simp_all
  moreover have "\<forall>s\<in>?S. s \<in> \<int>"
    using feasible_load_in_Ints [OF b f w] by auto
  ultimately have "Max ?S \<in> \<int>" by blast
  then show "objective_value m v \<in> \<int>"
    by (simp only: objective_value_build [OF b] optimal_W [OF b o])
next
  show "(\<forall>b\<in>set (B inst). 0 \<le> weight inst b) \<and> N inst \<noteq> []
          \<longrightarrow> (\<exists>n\<in>set (N inst). objective_value m v = wagon_load inst v n)"
  proof
    assume h: "(\<forall>b\<in>set (B inst). 0 \<le> weight inst b) \<and> N inst \<noteq> []"
    let ?A = "wagon_load inst v ` set (N inst)"
    have "Max ?A \<in> ?A" using h by (intro Max_in) simp_all
    then obtain n where "n \<in> set (N inst)" and "Max ?A = wagon_load inst v n"
      by auto
    moreover have "objective_value m v = Max ?A"
      unfolding objective_value_build [OF b] using optimal_W_nonneg_weights [OF b o] h by blast
    ultimately show "\<exists>n\<in>set (N inst). objective_value m v = wagon_load inst v n"
      by auto
  qed
qed

theorem optimal_value_is_integer_witness:
  "build_model notebook_instance = Inr notebook_model
   \<and> distinct (B notebook_instance) \<and> distinct (N notebook_instance)
   \<and> is_optimal notebook_model (valuation_of notebook_assignment 99)
   \<and> objective_value notebook_model (valuation_of notebook_assignment 99) = 99
   \<and> objective_value notebook_model (valuation_of notebook_assignment 99) \<in> \<int>"
proof -
  have dB: "distinct (B notebook_instance)" and dN: "distinct (N notebook_instance)"
    by (simp_all add: notebook_B notebook_N)
  from optimal_value_is_integer [OF notebook_build notebook_optimal notebook_weights_Ints dB dN]
  show ?thesis
    by (simp add: notebook_build notebook_optimal dB dN
        objective_value_build [OF notebook_build] valuation_of_def)
qed

end
